theory Spec2Isabelle
  imports Main
begin

section \<open>Exceptions\<close>

text \<open>
  The exceptions that leave a function of the modelled part of \<^verbatim>\<open>app.py\<close> or
  end its capture loop. \<open>ValueError\<close> carries the message of the source.
  \<open>ExternalError\<close> stands for any exception raised inside a call into
  pyautogui, numpy or cv2. The \<^verbatim>\<open>IOError\<close> of \<^verbatim>\<open>start_recording\<close> is raised
  and caught inside that function and shows only in its result.
\<close>

datatype error =
    ValueError string
  | ZeroDivisionError
  | AttributeError
  | ExternalError

section \<open>Region\<close>

text \<open>
  The dataclass \<^verbatim>\<open>Region\<close> (fields \<^verbatim>\<open>x\<close>, \<^verbatim>\<open>y\<close>, \<^verbatim>\<open>width\<close>,
  \<^verbatim>\<open>height\<close>, all Python ints). The fields \<^verbatim>\<open>x\<close> and \<^verbatim>\<open>y\<close> are
  called \<open>rx\<close> and \<open>ry\<close> here.
\<close>

record region =
  rx :: int
  ry :: int
  width :: int
  height :: int

text \<open>
  The constructor: the generated \<^verbatim>\<open>__init__\<close> stores the four arguments and
  then runs \<^verbatim>\<open>__post_init__\<close>, whose two checks raise \<^verbatim>\<open>ValueError\<close>.
\<close>

definition Region :: "int \<Rightarrow> int \<Rightarrow> int \<Rightarrow> int \<Rightarrow> error + region" where
  "Region x y w h =
     (if w \<le> 0 \<or> h \<le> 0 then Inl (ValueError ''Width and height must be positive'')
      else if x < 0 \<or> y < 0 then Inl (ValueError ''Coordinates must be non-negative'')
      else Inr \<lparr>rx = x, ry = y, width = w, height = h\<rparr>)"

definition as_tuple :: "region \<Rightarrow> int \<times> int \<times> int \<times> int" where
  "as_tuple r = (rx r, ry r, width r, height r)"

text \<open>
  \<^verbatim>\<open>make_even_dimensions\<close> builds a new \<^verbatim>\<open>Region\<close> through the constructor, so
  the checks of \<^verbatim>\<open>__post_init__\<close> run on the decremented sizes. Python's \<^verbatim>\<open>%\<close>
  on ints is the floored remainder, which is \<open>mod\<close> on \<open>int\<close>.
\<close>

definition make_even_dimensions :: "region \<Rightarrow> error + region" where
  "make_even_dimensions r =
     Region (rx r) (ry r) (width r - width r mod 2) (height r - height r mod 2)"

section \<open>Frames and the encoder\<close>

text \<open>
  A frame is modelled by what the loop inspects and what the encoder depends on:
  the first two entries of its numpy shape (rows, columns) and the order of its
  colour channels. Pixel values are not modelled.
\<close>

datatype channel_order = RGB | BGR

record frame =
  shape :: "int \<times> int"
  channels :: channel_order

text \<open>\<^verbatim>\<open>cv2.cvtColor(frame, cv2.COLOR_RGB2BGR)\<close> swaps the first and the third channel.\<close>

definition cvtColor_RGB2BGR :: "frame \<Rightarrow> frame" where
  "cvtColor_RGB2BGR f = f\<lparr>channels := (case channels f of RGB \<Rightarrow> BGR | BGR \<Rightarrow> RGB)\<rparr>"

text \<open>
  \<^verbatim>\<open>cv2.resize(src, dsize)\<close> takes \<open>dsize\<close> as (width, height) and returns an
  array of \<open>height\<close> rows and \<open>width\<close> columns.
\<close>

definition resize :: "frame \<Rightarrow> int \<times> int \<Rightarrow> frame" where
  "resize f dsize = f\<lparr>shape := (snd dsize, fst dsize)\<rparr>"

text \<open>
  The \<^verbatim>\<open>cv2.VideoWriter\<close> object held in \<^verbatim>\<open>self.writer\<close>: the identity of the
  sink it stands for and the answer of \<^verbatim>\<open>isOpened()\<close>.
\<close>

record video_writer =
  w_id :: nat
  w_opened :: bool

text \<open>
  What the recorder does to the outside world is kept as a log, in the order it
  happens: \<open>Opened n path fps (w, h) ok\<close> is the call of the \<^verbatim>\<open>cv2.VideoWriter\<close>
  constructor that returned sink \<open>n\<close>, with \<open>fps\<close> the integer that the source hands
  to \<^verbatim>\<open>float\<close>, \<open>Released n\<close> a call of \<^verbatim>\<open>release()\<close> on
  sink \<open>n\<close>, \<open>Wrote n f\<close> a call of \<^verbatim>\<open>write(f)\<close> on sink \<open>n\<close> that returned, and
  \<open>Captured rect\<close> a call of \<^verbatim>\<open>pyautogui.screenshot(region=rect)\<close>.
\<close>

datatype effect =
    Opened nat string int "int \<times> int" bool
  | Released nat
  | Wrote nat frame
  | Captured "int \<times> int \<times> int \<times> int"

section \<open>VideoRecorder\<close>

text \<open>
  A background thread running \<^verbatim>\<open>_record_loop\<close> is a program counter and the
  local \<^verbatim>\<open>frame_count\<close>. The loop reads shared fields of the recorder that
  another thread writes at two places of a cycle, the stop event in the loop
  condition and \<^verbatim>\<open>self.writer\<close> at the write, and it acts on the outside world
  at the screenshot and at the write. A cycle is therefore three atomic steps:
  \<open>Top\<close> is the point before the loop condition \<^verbatim>\<open>not self.stop_event.is_set()\<close>,
  \<open>Capturing\<close> the point after the condition was found true and before
  \<^verbatim>\<open>pyautogui.screenshot\<close>, and \<open>Pending f\<close> the point before
  \<^verbatim>\<open>self.writer.write(f)\<close>. Another thread can run between any two of them, so
  the stop event can be set after the condition was tested and before the
  screenshot is taken. \<open>Init\<close> is a started thread that has not yet run the
  lines before the loop, \<open>Unstarted\<close> a thread object whose \<^verbatim>\<open>start()\<close> did not
  succeed, \<open>Finished None\<close> a loop left through its condition and
  \<open>Finished (Some e)\<close> a thread ended by the exception \<open>e\<close>.
\<close>

datatype pc = Unstarted | Init | Top | Capturing | Pending frame | Finished "error option"

record thread =
  t_pc :: pc
  frame_count :: nat

text \<open>
  The fields of \<^verbatim>\<open>VideoRecorder\<close>, followed by the threads created so far
  (\<^verbatim>\<open>_recording_thread\<close> refers to one of them by position) and the log of effects.
\<close>

record recorder =
  region :: region
  fps :: int
  filename :: string
  writer :: "video_writer option"
  stop_event :: bool
  recording_thread :: "nat option"
  threads :: "thread list"
  effects :: "effect list"

text \<open>\<^verbatim>\<open>VideoRecorder.__init__\<close>; the exception of \<open>make_even_dimensions\<close> propagates.\<close>

definition VideoRecorder :: "region \<Rightarrow> int \<Rightarrow> string \<Rightarrow> error + recorder" where
  "VideoRecorder r f name =
     (case make_even_dimensions r of
        Inl e \<Rightarrow> Inl e
      | Inr r' \<Rightarrow>
          Inr \<lparr>region = r', fps = f, filename = name, writer = None, stop_event = False,
               recording_thread = None, threads = [], effects = []\<rparr>)"

text \<open>
  \<^verbatim>\<open>_cleanup\<close>. An exception of \<^verbatim>\<open>release()\<close> is caught and only logged, and
  \<^verbatim>\<open>self.writer\<close> is set to \<^verbatim>\<open>None\<close> in either case.
\<close>

definition cleanup :: "recorder \<Rightarrow> recorder" where
  "cleanup w =
     (case writer w of
        None \<Rightarrow> w
      | Some wr \<Rightarrow> w\<lparr>writer := None, effects := effects w @ [Released (w_id wr)]\<rparr>)"

text \<open>
  The assignment \<^verbatim>\<open>self.writer = cv2.VideoWriter(...)\<close> of \<^verbatim>\<open>start_recording\<close>;
  \<open>ok\<close> is what \<^verbatim>\<open>isOpened()\<close> will answer. The new sink is numbered by the
  length of the log, which no earlier sink can have.
\<close>

definition open_writer :: "bool \<Rightarrow> recorder \<Rightarrow> recorder" where
  "open_writer ok w =
     (let n = length (effects w) in
      w\<lparr>writer := Some \<lparr>w_id = n, w_opened = ok\<rparr>,
        effects := effects w @
          [Opened n (filename w) (fps w) (width (region w), height (region w)) ok]\<rparr>)"

text \<open>
  The lines of \<^verbatim>\<open>start_recording\<close> that clear the stop event, create the thread
  object and store it in \<^verbatim>\<open>self._recording_thread\<close>; \<open>p\<close> is the state the new
  thread is left in by \<^verbatim>\<open>start()\<close>.
\<close>

definition new_thread :: "pc \<Rightarrow> recorder \<Rightarrow> recorder" where
  "new_thread p w =
     w\<lparr>stop_event := False,
       recording_thread := Some (length (threads w)),
       threads := threads w @ [\<lparr>t_pc = p, frame_count = 0\<rparr>]\<rparr>"

text \<open>
  What the outside world does during one call of \<^verbatim>\<open>start_recording\<close>:
  an exception before \<^verbatim>\<open>self.writer\<close> is assigned (\<open>OpenRaises\<close>), a writer that is
  not opened (\<open>NotOpened\<close>), an opened writer and a thread that cannot be started
  (\<open>ThreadStartRaises\<close>), or an opened writer and a started thread (\<open>Started\<close>).
\<close>

datatype start_env = OpenRaises | NotOpened | ThreadStartRaises | Started

definition start_recording :: "start_env \<Rightarrow> recorder \<Rightarrow> bool \<times> recorder" where
  "start_recording env w =
     (case env of
        OpenRaises \<Rightarrow> (False, cleanup w)
      | NotOpened \<Rightarrow> (False, cleanup (open_writer False w))
      | ThreadStartRaises \<Rightarrow> (False, cleanup (new_thread Unstarted (open_writer True w)))
      | Started \<Rightarrow> (True, new_thread Init (open_writer True w)))"

text \<open>
  What the outside world does during one cycle of the loop: \<open>capture\<close> is \<open>None\<close>
  when \<^verbatim>\<open>pyautogui.screenshot\<close> or \<^verbatim>\<open>np.array\<close> raises and otherwise the shape of
  the captured buffer; the three flags say whether \<^verbatim>\<open>cv2.cvtColor\<close>,
  \<^verbatim>\<open>cv2.resize\<close> and \<^verbatim>\<open>self.writer.write\<close> raise.
\<close>

record cycle_env =
  capture :: "(int \<times> int) option"
  cvt_raises :: bool
  resize_raises :: bool
  write_raises :: bool

text \<open>
  The capture, conversion and resize of one cycle. The screenshot is an RGB image.
\<close>

definition grab_frame :: "cycle_env \<Rightarrow> region \<Rightarrow> error + frame" where
  "grab_frame env r =
     (case capture env of
        None \<Rightarrow> Inl ExternalError
      | Some s \<Rightarrow>
          let frame = \<lparr>shape = s, channels = RGB\<rparr> in
          if cvt_raises env then Inl ExternalError
          else
            let frame_bgr = cvtColor_RGB2BGR frame in
            if shape frame_bgr \<noteq> (height r, width r) then
              (if resize_raises env then Inl ExternalError
               else Inr (resize frame_bgr (width r, height r)))
            else Inr frame_bgr)"

definition set_pc :: "nat \<Rightarrow> pc \<Rightarrow> recorder \<Rightarrow> recorder" where
  "set_pc t p w = w\<lparr>threads := (threads w)[t := (threads w ! t)\<lparr>t_pc := p\<rparr>]\<rparr>"

text \<open>
  One atomic step of thread \<open>t\<close> in \<^verbatim>\<open>_record_loop\<close>. The division
  \<^verbatim>\<open>1.0 / self.fps\<close> stands before the \<^verbatim>\<open>try\<close>, so its exception ends the thread.
  Every exception inside the loop is caught and ends the loop. The pacing at the
  end of a cycle works on local floating-point time stamps only and is left out.
\<close>

definition record_loop_step :: "cycle_env \<Rightarrow> nat \<Rightarrow> recorder \<Rightarrow> recorder" where
  "record_loop_step env t w =
     (if length (threads w) \<le> t then w
      else
        case t_pc (threads w ! t) of
          Unstarted \<Rightarrow> w
        | Finished r \<Rightarrow> w
        | Init \<Rightarrow>
            if fps w = 0 then set_pc t (Finished (Some ZeroDivisionError)) w
            else set_pc t Top w
        | Top \<Rightarrow>
            if stop_event w then set_pc t (Finished None) w
            else set_pc t Capturing w
        | Capturing \<Rightarrow>
            let w1 = w\<lparr>effects := effects w @ [Captured (as_tuple (region w))]\<rparr> in
            (case grab_frame env (region w) of
               Inl e \<Rightarrow> set_pc t (Finished (Some e)) w1
             | Inr f \<Rightarrow> set_pc t (Pending f) w1)
        | Pending f \<Rightarrow>
            (case writer w of
               None \<Rightarrow> set_pc t (Finished (Some AttributeError)) w
             | Some wr \<Rightarrow>
                 if write_raises env then set_pc t (Finished (Some ExternalError)) w
                 else
                   w\<lparr>threads := (threads w)[t := \<lparr>t_pc = Top,
                                                 frame_count = frame_count (threads w ! t) + 1\<rparr>],
                     effects := effects w @ [Wrote (w_id wr) f]\<rparr>))"

text \<open>\<^verbatim>\<open>Thread.is_alive()\<close>: started and not yet ended.\<close>

definition is_alive :: "recorder \<Rightarrow> nat \<Rightarrow> bool" where
  "is_alive w t =
     (t < length (threads w) \<and>
      (case t_pc (threads w ! t) of Unstarted \<Rightarrow> False | Finished r \<Rightarrow> False | _ \<Rightarrow> True))"

text \<open>A schedule of background steps, each by a thread and with what the world does.\<close>

fun background :: "(nat \<times> cycle_env) list \<Rightarrow> recorder \<Rightarrow> recorder" where
  "background [] w = w"
| "background ((t, e) # es) w = background es (record_loop_step e t w)"

text \<open>
  \<^verbatim>\<open>stop_recording\<close>. A call is one atomic step, except that background steps
  run while \<^verbatim>\<open>join(timeout)\<close> blocks: \<open>join_steps\<close> are the steps taken until the
  thread ends or the timeout expires, and \<open>join_raises\<close> says whether \<^verbatim>\<open>join\<close>
  raises. The \<^verbatim>\<open>finally\<close> clause runs \<^verbatim>\<open>_cleanup\<close> on each path after the
  early return.
\<close>

record stop_env =
  join_raises :: bool
  join_steps :: "(nat \<times> cycle_env) list"

definition stop_recording :: "stop_env \<Rightarrow> recorder \<Rightarrow> bool \<times> recorder" where
  "stop_recording env w =
     (case recording_thread w of
        None \<Rightarrow> (True, w)
      | Some t \<Rightarrow>
          if \<not> is_alive w t then (True, w)
          else
            let w1 = w\<lparr>stop_event := True\<rparr> in
            if join_raises env then (False, cleanup w1)
            else
              let w2 = background (join_steps env) w1 in
              (\<not> is_alive w2 t, cleanup w2))"

text \<open>
  An execution of a recorder: calls of its two methods by the caller, interleaved
  with steps of its background threads.
\<close>

datatype call = StartRecording start_env | StopRecording stop_env | Step nat cycle_env

fun call_recorder :: "call \<Rightarrow> recorder \<Rightarrow> recorder" where
  "call_recorder (StartRecording env) w = snd (start_recording env w)"
| "call_recorder (StopRecording env) w = snd (stop_recording env w)"
| "call_recorder (Step t env) w = record_loop_step env t w"

fun run :: "call list \<Rightarrow> recorder \<Rightarrow> recorder" where
  "run [] w = w"
| "run (c # cs) w = run cs (call_recorder c w)"

section \<open>Observations on an execution\<close>







text \<open>The sinks on which \<^verbatim>\<open>release()\<close> was called, one entry for each call.\<close>

fun released_ids :: "effect list \<Rightarrow> nat list" where
  "released_ids [] = []"
| "released_ids (Released n # es) = n # released_ids es"
| "released_ids (e # es) = released_ids es"

text \<open>
  A frame as the session with region \<open>r\<close> must hand it to the encoder: \<open>height r\<close>
  rows, \<open>width r\<close> columns, channels in the order BGR.
\<close>

definition frame_ok :: "region \<Rightarrow> frame \<Rightarrow> bool" where
  "frame_ok r f \<longleftrightarrow> shape f = (height r, width r) \<and> channels f = BGR"

fun pc_ok :: "region \<Rightarrow> pc \<Rightarrow> bool" where
  "pc_ok r (Pending f) = frame_ok r f"
| "pc_ok r p = True"

fun effect_ok :: "region \<Rightarrow> effect \<Rightarrow> bool" where
  "effect_ok r (Opened n path f sz ok) = (sz = (width r, height r))"
| "effect_ok r (Released n) = True"
| "effect_ok r (Wrote n f) = frame_ok r f"
| "effect_ok r (Captured rect) = (rect = as_tuple r)"

definition session_inv :: "region \<Rightarrow> recorder \<Rightarrow> bool" where
  "session_inv r w \<longleftrightarrow>
     region w = r \<and> list_all (\<lambda>th. pc_ok r (t_pc th)) (threads w) \<and>
     list_all (effect_ok r) (effects w)"

definition release_inv :: "recorder \<Rightarrow> bool" where
  "release_inv w \<longleftrightarrow>
     distinct (released_ids (effects w)) \<and>
     list_all (\<lambda>n. n < length (effects w)) (released_ids (effects w)) \<and>
     (case writer w of
        None \<Rightarrow> True
      | Some wr \<Rightarrow> w_id wr < length (effects w) \<and> w_id wr \<notin> set (released_ids (effects w)))"

section \<open>An example session\<close>

text \<open>
  The recorder built from \<^verbatim>\<open>Region(10, 10, 101, 51)\<close> at 30 frames per second,
  the same recorder after a successful \<^verbatim>\<open>start_recording\<close>, the recorder after
  its loop has ended by an exception in the first cycle, and four ways a cycle can
  go: the capture raises, the capture returns a buffer of the expected shape, the
  capture returns a buffer one row and one column too large, the write raises.
\<close>

abbreviation example_recorder :: recorder where
  "example_recorder \<equiv>
     \<lparr>region = \<lparr>rx = 10, ry = 10, width = 100, height = 50\<rparr>, fps = 30,
      filename = ''out.mp4'', writer = None, stop_event = False,
      recording_thread = None, threads = [], effects = []\<rparr>"

abbreviation example_started :: recorder where
  "example_started \<equiv>
     \<lparr>region = \<lparr>rx = 10, ry = 10, width = 100, height = 50\<rparr>, fps = 30,
      filename = ''out.mp4'', writer = Some \<lparr>w_id = 0, w_opened = True\<rparr>,
      stop_event = False, recording_thread = Some 0,
      threads = [\<lparr>t_pc = Init, frame_count = 0\<rparr>],
      effects = [Opened 0 ''out.mp4'' 30 (100, 50) True]\<rparr>"

abbreviation example_failed :: recorder where
  "example_failed \<equiv>
     \<lparr>region = \<lparr>rx = 10, ry = 10, width = 100, height = 50\<rparr>, fps = 30,
      filename = ''out.mp4'', writer = Some \<lparr>w_id = 0, w_opened = True\<rparr>,
      stop_event = False, recording_thread = Some 0,
      threads = [\<lparr>t_pc = Finished (Some ExternalError), frame_count = 0\<rparr>],
      effects = [Opened 0 ''out.mp4'' 30 (100, 50) True, Captured (10, 10, 100, 50)]\<rparr>"

abbreviation capture_raises :: cycle_env where
  "capture_raises \<equiv>
     \<lparr>capture = None, cvt_raises = False, resize_raises = False, write_raises = False\<rparr>"

abbreviation exact_capture :: cycle_env where
  "exact_capture \<equiv>
     \<lparr>capture = Some (50, 100), cvt_raises = False, resize_raises = False,
      write_raises = False\<rparr>"

abbreviation oversized_capture :: cycle_env where
  "oversized_capture \<equiv>
     \<lparr>capture = Some (51, 101), cvt_raises = False, resize_raises = False,
      write_raises = False\<rparr>"

abbreviation encode_raises :: cycle_env where
  "encode_raises \<equiv>
     \<lparr>capture = Some (50, 100), cvt_raises = False, resize_raises = False,
      write_raises = True\<rparr>"

section \<open>Properties of Region\<close>

lemma Region_Inr_iff:
  "Region x y w h = Inr r \<longleftrightarrow>
     0 < w \<and> 0 < h \<and> 0 \<le> x \<and> 0 \<le> y \<and> r = \<lparr>rx = x, ry = y, width = w, height = h\<rparr>"
  by (auto simp: Region_def)

lemma Region_Inl_iff:
  "(\<exists>e. Region x y w h = Inl e) \<longleftrightarrow> w \<le> 0 \<or> h \<le> 0 \<or> x < 0 \<or> y < 0"
  by (auto simp: Region_def)

lemma even_part_ge2: "2 \<le> (w::int) \<Longrightarrow> 2 \<le> w - w mod 2"
  by presburger

lemma even_part_even: "even ((w::int) - w mod 2)"
  by presburger

lemma even_part_le: "(w::int) - w mod 2 \<le> w"
  by presburger

lemma even_part_pos: "0 < (w::int) - w mod 2 \<Longrightarrow> 2 \<le> w - w mod 2"
  by presburger

lemma even_part_cases: "(w::int) - w mod 2 = (if odd w then w - 1 else w)"
  by presburger

lemma make_even_dimensions_ok:
  assumes "2 \<le> width r" "2 \<le> height r" "0 \<le> rx r" "0 \<le> ry r"
  shows "make_even_dimensions r =
           Inr \<lparr>rx = rx r, ry = ry r,
                width = width r - width r mod 2, height = height r - height r mod 2\<rparr>"
proof -
  have "0 < width r - width r mod 2" "0 < height r - height r mod 2"
    using even_part_ge2 [of "width r"] even_part_ge2 [of "height r"] assms by linarith+
  with assms show ?thesis
    by (simp add: make_even_dimensions_def Region_def)
qed

lemma make_even_dimensions_Inr:
  assumes "make_even_dimensions r = Inr r'"
  shows "even (width r')" "even (height r')" "2 \<le> width r'" "2 \<le> height r'"
        "0 \<le> rx r'" "0 \<le> ry r'" "rx r' = rx r" "ry r' = ry r"
proof -
  from assms have pos: "0 < width r - width r mod 2" "0 < height r - height r mod 2"
    and nn: "0 \<le> rx r" "0 \<le> ry r"
    and r': "r' = \<lparr>rx = rx r, ry = ry r,
                   width = width r - width r mod 2, height = height r - height r mod 2\<rparr>"
    by (simp_all add: make_even_dimensions_def Region_Inr_iff)
  show "even (width r')" "even (height r')"
    unfolding r' by (simp_all add: even_part_even del: even_diff)
  show "2 \<le> width r'" "2 \<le> height r'"
    using even_part_pos [OF pos(1)] even_part_pos [OF pos(2)] unfolding r' by simp_all
  show "0 \<le> rx r'" "0 \<le> ry r'" "rx r' = rx r" "ry r' = ry r" using nn unfolding r' by simp_all
qed

text \<open>
  C3. Constructing a Region fails exactly when the width or the height is not
  positive or a coordinate is negative; on every other input it succeeds and the
  fields of the Region are the four arguments.
\<close>

theorem C3_region_construction:
  "((\<exists>e. Region x y w h = Inl e) \<longleftrightarrow> (w \<le> 0 \<or> h \<le> 0 \<or> x < 0 \<or> y < 0)) \<and>
   (\<not> (w \<le> 0 \<or> h \<le> 0 \<or> x < 0 \<or> y < 0) \<longrightarrow>
      (\<exists>r. Region x y w h = Inr r \<and> rx r = x \<and> ry r = y \<and> width r = w \<and> height r = h
           \<and> as_tuple r = (x, y, w, h)))"
  by (auto simp: Region_def as_tuple_def)

theorem C3_region_construction_witness:
  "(\<exists>e. Region 10 10 0 51 = Inl e) \<and> (\<exists>e. Region 10 (- 1) 101 51 = Inl e) \<and>
   (\<exists>r. Region 10 10 101 51 = Inr r \<and> rx r = 10 \<and> ry r = 10 \<and> width r = 101 \<and> height r = 51
        \<and> as_tuple r = (10, 10, 101, 51))"
  using C3_region_construction [of 10 10 0 51] C3_region_construction [of 10 "- 1" 101 51]
    C3_region_construction [of 10 10 101 51]
  by simp

text \<open>
  C2, as the code has it. For a Region built by the constructor whose width and
  height are both at least 2, \<open>make_even_dimensions\<close> returns a Region with the same
  coordinates whose width and height are the originals decremented by 1 if odd and
  unchanged if even, hence even, at most the original and at least 2. No Region it
  returns, on any input, has width or height 0.
\<close>

theorem C2_make_even_dimensions:
  assumes "Region x y w h = Inr r"
  shows "(2 \<le> w \<and> 2 \<le> h \<longrightarrow>
            (\<exists>r'. make_even_dimensions r = Inr r' \<and> rx r' = x \<and> ry r' = y \<and>
               width r' = (if odd w then w - 1 else w) \<and>
               height r' = (if odd h then h - 1 else h) \<and>
               even (width r') \<and> even (height r') \<and>
               width r' \<le> w \<and> height r' \<le> h \<and> 2 \<le> width r' \<and> 2 \<le> height r')) \<and>
         (\<forall>r'. make_even_dimensions r = Inr r' \<longrightarrow> width r' \<noteq> 0 \<and> height r' \<noteq> 0)"
proof (intro conjI impI allI)
  fix r' assume "make_even_dimensions r = Inr r'"
  from make_even_dimensions_Inr(3,4) [OF this]
  show "width r' \<noteq> 0" "height r' \<noteq> 0" by simp_all
next
  assume big: "2 \<le> w \<and> 2 \<le> h"
  from assms have r: "r = \<lparr>rx = x, ry = y, width = w, height = h\<rparr>" and nn: "0 \<le> x" "0 \<le> y"
    by (simp_all add: Region_Inr_iff)
  let ?r' = "\<lparr>rx = x, ry = y, width = w - w mod 2, height = h - h mod 2\<rparr>"
  have eq: "make_even_dimensions r = Inr ?r'"
    using make_even_dimensions_ok [of r] big nn by (simp add: r)
  have "width ?r' = (if odd w then w - 1 else w)" "height ?r' = (if odd h then h - 1 else h)"
    by (simp_all add: even_part_cases)
  moreover have "even (width ?r')" "even (height ?r')"
    by (simp_all add: even_part_even del: even_diff)
  moreover have "width ?r' \<le> w" "height ?r' \<le> h"
    using even_part_le [of w] even_part_le [of h] by simp_all
  moreover have "2 \<le> width ?r'" "2 \<le> height ?r'"
    using big even_part_ge2 [of w] even_part_ge2 [of h] by simp_all
  ultimately show "\<exists>r'. make_even_dimensions r = Inr r' \<and> rx r' = x \<and> ry r' = y \<and>
               width r' = (if odd w then w - 1 else w) \<and>
               height r' = (if odd h then h - 1 else h) \<and>
               even (width r') \<and> even (height r') \<and>
               width r' \<le> w \<and> height r' \<le> h \<and> 2 \<le> width r' \<and> 2 \<le> height r'"
    using eq by (intro exI [of _ ?r']) simp
qed

theorem C2_make_even_dimensions_witness:
  "Region 10 10 101 51 = Inr \<lparr>rx = 10, ry = 10, width = 101, height = 51\<rparr> \<and>
   make_even_dimensions \<lparr>rx = 10, ry = 10, width = 101, height = 51\<rparr> =
     Inr \<lparr>rx = 10, ry = 10, width = 100, height = 50\<rparr> \<and>
   (\<exists>r'. make_even_dimensions \<lparr>rx = 10, ry = 10, width = 101, height = 51\<rparr> = Inr r' \<and>
      rx r' = 10 \<and> ry r' = 10 \<and> width r' = 100 \<and> height r' = 50 \<and>
      even (width r') \<and> even (height r') \<and> width r' \<noteq> 0 \<and> height r' \<noteq> 0)"
proof -
  have c: "Region 10 10 101 51 = Inr \<lparr>rx = 10, ry = 10, width = 101, height = 51\<rparr>"
    by (simp add: Region_def)
  have m: "make_even_dimensions \<lparr>rx = 10, ry = 10, width = 101, height = 51\<rparr> =
     Inr \<lparr>rx = 10, ry = 10, width = 100, height = 50\<rparr>"
    by (simp add: make_even_dimensions_def Region_def)
  from C2_make_even_dimensions [OF c] c m show ?thesis by simp
qed

text \<open>
  The claim C2 as the specification words it fails: the Region of width 1 and
  height 5 is built by the constructor, and \<open>make_even_dimensions\<close> raises
  \<open>ValueError\<close> on it instead of returning a Region of width 0.
\<close>

theorem C2_never_fails_counterexample:
  "Region 0 0 1 5 = Inr \<lparr>rx = 0, ry = 0, width = 1, height = 5\<rparr> \<and>
   make_even_dimensions \<lparr>rx = 0, ry = 0, width = 1, height = 5\<rparr> =
     Inl (ValueError ''Width and height must be positive'')"
  by (simp add: Region_def make_even_dimensions_def)

text \<open>
  C10. On a Region built by the constructor with width 1 or height 1,
  \<open>make_even_dimensions\<close> raises \<open>ValueError\<close>: the decremented size 0 fails the
  positivity check of the constructor. With width and height both at least 2 it
  returns a Region.
\<close>

theorem C10_make_even_dimensions_raises:
  assumes "Region x y w h = Inr r"
  shows "((w = 1 \<or> h = 1) \<longrightarrow>
            make_even_dimensions r = Inl (ValueError ''Width and height must be positive'')) \<and>
         (2 \<le> w \<and> 2 \<le> h \<longrightarrow> (\<exists>r'. make_even_dimensions r = Inr r'))"
proof (intro conjI impI)
  from assms have r: "r = \<lparr>rx = x, ry = y, width = w, height = h\<rparr>" and nn: "0 \<le> x" "0 \<le> y"
    by (simp_all add: Region_Inr_iff)
  {
    assume "w = 1 \<or> h = 1"
    then have "w - w mod 2 \<le> 0 \<or> h - h mod 2 \<le> 0" by auto
    then show "make_even_dimensions r = Inl (ValueError ''Width and height must be positive'')"
      by (simp add: make_even_dimensions_def Region_def r)
  }
  {
    assume "2 \<le> w \<and> 2 \<le> h"
    then show "\<exists>r'. make_even_dimensions r = Inr r'"
      using make_even_dimensions_ok [of r] nn by (simp add: r)
  }
qed

theorem C10_make_even_dimensions_raises_witness:
  "Region 3 4 1 7 = Inr \<lparr>rx = 3, ry = 4, width = 1, height = 7\<rparr> \<and>
   make_even_dimensions \<lparr>rx = 3, ry = 4, width = 1, height = 7\<rparr> =
     Inl (ValueError ''Width and height must be positive'') \<and>
   Region 3 4 6 1 = Inr \<lparr>rx = 3, ry = 4, width = 6, height = 1\<rparr> \<and>
   make_even_dimensions \<lparr>rx = 3, ry = 4, width = 6, height = 1\<rparr> =
     Inl (ValueError ''Width and height must be positive'') \<and>
   Region 3 4 2 7 = Inr \<lparr>rx = 3, ry = 4, width = 2, height = 7\<rparr> \<and>
   (\<exists>r'. make_even_dimensions \<lparr>rx = 3, ry = 4, width = 2, height = 7\<rparr> = Inr r')"
proof -
  have a: "Region 3 4 1 7 = Inr \<lparr>rx = 3, ry = 4, width = 1, height = 7\<rparr>"
    and b: "Region 3 4 6 1 = Inr \<lparr>rx = 3, ry = 4, width = 6, height = 1\<rparr>"
    and c: "Region 3 4 2 7 = Inr \<lparr>rx = 3, ry = 4, width = 2, height = 7\<rparr>"
    by (simp_all add: Region_def)
  from C10_make_even_dimensions_raises [OF a] C10_make_even_dimensions_raises [OF b]
    C10_make_even_dimensions_raises [OF c] a b c
  show ?thesis by simp
qed

section \<open>Invariants of an execution\<close>

lemma list_all_update:
  "list_all P xs \<Longrightarrow> P x \<Longrightarrow> list_all P (xs[t := x])"
  using set_update_subset_insert [of xs t x] by (auto simp: list_all_iff)

lemma grab_frame_ok: "grab_frame env r = Inr f \<Longrightarrow> frame_ok r f"
  by (auto simp: grab_frame_def frame_ok_def cvtColor_RGB2BGR_def resize_def Let_def
      split: option.splits if_splits)

lemma inv_cleanup: "session_inv r w \<Longrightarrow> session_inv r (cleanup w)"
  by (auto simp: session_inv_def cleanup_def split: option.splits)

lemma inv_open_writer: "session_inv r w \<Longrightarrow> session_inv r (open_writer ok w)"
  by (auto simp: session_inv_def open_writer_def Let_def)

lemma inv_new_thread:
  "session_inv r w \<Longrightarrow> (\<And>f. p \<noteq> Pending f) \<Longrightarrow> session_inv r (new_thread p w)"
  by (cases p) (auto simp: session_inv_def new_thread_def)

lemma inv_start: "session_inv r w \<Longrightarrow> session_inv r (snd (start_recording env w))"
  by (cases env)
     (simp_all add: start_recording_def inv_cleanup inv_open_writer inv_new_thread)

lemma inv_set_pc: "session_inv r w \<Longrightarrow> pc_ok r p \<Longrightarrow> session_inv r (set_pc t p w)"
  by (auto simp: session_inv_def set_pc_def intro: list_all_update)

lemma inv_captured:
  "session_inv r w \<Longrightarrow>
   session_inv r (w\<lparr>effects := effects w @ [Captured (as_tuple (region w))]\<rparr>)"
  by (auto simp: session_inv_def)

lemma inv_step:
  assumes inv: "session_inv r w"
  shows "session_inv r (record_loop_step env t w)"
proof (cases "length (threads w) \<le> t")
  case True
  with inv show ?thesis by (simp add: record_loop_step_def)
next
  case False
  then have t: "t < length (threads w)" by simp
  show ?thesis
  proof (cases "t_pc (threads w ! t)")
    case Unstarted
    with inv False show ?thesis by (simp add: record_loop_step_def)
  next
    case Init
    with inv False show ?thesis by (simp add: record_loop_step_def inv_set_pc)
  next
    case Top
    with inv False show ?thesis by (simp add: record_loop_step_def inv_set_pc)
  next
    case Capturing
    have reg: "region w = r" using inv by (simp add: session_inv_def)
    show ?thesis
    proof (cases "grab_frame env (region w)")
      case (Inl e)
      with inv False Capturing show ?thesis
        by (simp add: record_loop_step_def inv_set_pc inv_captured Let_def)
    next
      case (Inr f)
      then have "pc_ok r (Pending f)" using grab_frame_ok reg by simp
      with inv False Capturing Inr show ?thesis
        by (simp add: record_loop_step_def inv_set_pc inv_captured Let_def)
    qed
  next
    case (Pending f)
    from inv t have "pc_ok r (t_pc (threads w ! t))"
      by (simp add: session_inv_def list_all_length)
    with Pending have ok: "frame_ok r f" by simp
    show ?thesis
    proof (cases "writer w")
      case None
      with inv False Pending show ?thesis by (simp add: record_loop_step_def inv_set_pc)
    next
      case (Some wr)
      show ?thesis
      proof (cases "write_raises env")
        case True
        with inv False Pending Some show ?thesis
          by (simp add: record_loop_step_def inv_set_pc)
      next
        case no_raise: False
        have "session_inv r
                (w\<lparr>threads := (threads w)[t := \<lparr>t_pc = Top,
                                               frame_count = frame_count (threads w ! t) + 1\<rparr>],
                   effects := effects w @ [Wrote (w_id wr) f]\<rparr>)"
          using inv ok by (auto simp: session_inv_def intro: list_all_update)
        with False Pending Some no_raise show ?thesis
          by (simp add: record_loop_step_def)
      qed
    qed
  next
    case (Finished x)
    with inv False show ?thesis by (simp add: record_loop_step_def)
  qed
qed

lemma inv_background: "session_inv r w \<Longrightarrow> session_inv r (background es w)"
  by (induction es w rule: background.induct) (simp_all add: inv_step)

lemma inv_stop_event: "session_inv r w \<Longrightarrow> session_inv r (w\<lparr>stop_event := b\<rparr>)"
  by (simp add: session_inv_def)

lemma inv_stop: "session_inv r w \<Longrightarrow> session_inv r (snd (stop_recording env w))"
  by (simp add: stop_recording_def Let_def inv_cleanup inv_background inv_stop_event
      split: option.splits)

lemma inv_call: "session_inv r w \<Longrightarrow> session_inv r (call_recorder c w)"
  by (cases c) (simp_all add: inv_start inv_stop inv_step)

lemma inv_run: "session_inv r w \<Longrightarrow> session_inv r (run cs w)"
  by (induction cs w rule: run.induct) (simp_all add: inv_call)

lemma inv_init: "VideoRecorder r0 f name = Inr w0 \<Longrightarrow> session_inv (region w0) w0"
  by (auto simp: VideoRecorder_def session_inv_def split: sum.splits)

subsection \<open>No sink is released twice\<close>

lemma released_ids_append:
  "released_ids (xs @ ys) = released_ids xs @ released_ids ys"
  by (induction xs rule: released_ids.induct) simp_all

lemma rel_cleanup: "release_inv w \<Longrightarrow> release_inv (cleanup w)"
  by (auto simp: release_inv_def cleanup_def released_ids_append list_all_iff
      split: option.splits)

lemma rel_open_writer: "release_inv w \<Longrightarrow> release_inv (open_writer ok w)"
  by (auto simp: release_inv_def open_writer_def Let_def released_ids_append list_all_iff)

lemma rel_new_thread: "release_inv w \<Longrightarrow> release_inv (new_thread p w)"
  by (auto simp: release_inv_def new_thread_def split: option.splits)

lemma rel_start: "release_inv w \<Longrightarrow> release_inv (snd (start_recording env w))"
  by (cases env)
     (simp_all add: start_recording_def rel_cleanup rel_open_writer rel_new_thread)

lemma rel_set_pc: "release_inv w \<Longrightarrow> release_inv (set_pc t p w)"
  by (auto simp: release_inv_def set_pc_def split: option.splits)

lemma rel_step: "release_inv w \<Longrightarrow> release_inv (record_loop_step env t w)"
  by (cases "t_pc (threads w ! t)")
     (auto simp: record_loop_step_def Let_def rel_set_pc release_inv_def set_pc_def
        released_ids_append list_all_iff
      split: option.splits sum.splits)

lemma rel_background: "release_inv w \<Longrightarrow> release_inv (background es w)"
  by (induction es w rule: background.induct) (simp_all add: rel_step)

lemma rel_stop_event: "release_inv w \<Longrightarrow> release_inv (w\<lparr>stop_event := b\<rparr>)"
  by (auto simp: release_inv_def split: option.splits)

lemma rel_stop: "release_inv w \<Longrightarrow> release_inv (snd (stop_recording env w))"
  by (simp add: stop_recording_def Let_def rel_cleanup rel_background rel_stop_event
      split: option.splits)

lemma rel_call: "release_inv w \<Longrightarrow> release_inv (call_recorder c w)"
  by (cases c) (simp_all add: rel_start rel_stop rel_step)

lemma rel_run: "release_inv w \<Longrightarrow> release_inv (run cs w)"
  by (induction cs w rule: run.induct) (simp_all add: rel_call)

lemma rel_init: "VideoRecorder r0 f name = Inr w0 \<Longrightarrow> release_inv w0"
  by (auto simp: VideoRecorder_def release_inv_def split: sum.splits)

text \<open>
  In every execution of a recorder, \<^verbatim>\<open>release()\<close> is called at most once on
  each sink.
\<close>

lemma released_at_most_once:
  assumes "VideoRecorder r0 f name = Inr w0"
  shows "distinct (released_ids (effects (run cs w0)))"
  using rel_run [OF rel_init [OF assms], of cs] by (simp add: release_inv_def)

subsection \<open>The example session\<close>

lemma example_init:
  "VideoRecorder \<lparr>rx = 10, ry = 10, width = 101, height = 51\<rparr> 30 ''out.mp4'' =
     Inr example_recorder"
  by (simp add: VideoRecorder_def make_even_dimensions_def Region_def)

lemma example_start: "start_recording Started example_recorder = (True, example_started)"
  by (simp add: start_recording_def open_writer_def new_thread_def)

lemma example_capture_fails:
  "background [(0, capture_raises), (0, capture_raises), (0, capture_raises)] example_started =
     example_failed"
  by (simp add: record_loop_step_def set_pc_def grab_frame_def as_tuple_def)

lemma example_encode_fails:
  "background [(0, encode_raises), (0, encode_raises), (0, encode_raises), (0, encode_raises)]
     example_started = example_failed"
  by (simp add: record_loop_step_def set_pc_def grab_frame_def as_tuple_def
      cvtColor_RGB2BGR_def)

lemma example_run_capturing:
  "run [StartRecording Started, Step 0 exact_capture, Step 0 exact_capture] example_recorder =
   example_started\<lparr>threads := [\<lparr>t_pc = Capturing, frame_count = 0\<rparr>]\<rparr>"
  by (simp add: start_recording_def open_writer_def new_thread_def record_loop_step_def
      set_pc_def)

lemma example_run_pending:
  "run [StartRecording Started, Step 0 exact_capture, Step 0 exact_capture,
        Step 0 oversized_capture] example_recorder =
   example_started\<lparr>threads := [\<lparr>t_pc = Pending \<lparr>shape = (50, 100), channels = BGR\<rparr>,
                                    frame_count = 0\<rparr>],
     effects := [Opened 0 ''out.mp4'' 30 (100, 50) True, Captured (10, 10, 100, 50)]\<rparr>"
  by (simp add: start_recording_def open_writer_def new_thread_def record_loop_step_def
      set_pc_def grab_frame_def as_tuple_def cvtColor_RGB2BGR_def resize_def)

lemma example_run_prefix:
  "run [StartRecording Started, Step 0 exact_capture] example_recorder =
   example_started\<lparr>threads := [\<lparr>t_pc = Top, frame_count = 0\<rparr>]\<rparr>"
  by (simp add: start_recording_def open_writer_def new_thread_def record_loop_step_def
      set_pc_def)

lemma example_run:
  "run [StartRecording Started, Step 0 exact_capture, Step 0 exact_capture,
        Step 0 oversized_capture, Step 0 exact_capture] example_recorder =
   example_started\<lparr>threads := [\<lparr>t_pc = Top, frame_count = 1\<rparr>],
     effects := [Opened 0 ''out.mp4'' 30 (100, 50) True, Captured (10, 10, 100, 50),
                 Wrote 0 \<lparr>shape = (50, 100), channels = BGR\<rparr>]\<rparr>"
  by (simp add: start_recording_def open_writer_def new_thread_def record_loop_step_def
      set_pc_def grab_frame_def as_tuple_def cvtColor_RGB2BGR_def resize_def)

subsection \<open>Cancellation\<close>

lemma step_flag: "stop_event (record_loop_step env t w) = stop_event w"
  by (cases "t_pc (threads w ! t)")
     (auto simp: record_loop_step_def set_pc_def Let_def split: option.splits sum.splits)

lemma step_length: "length (threads (record_loop_step env t w)) = length (threads w)"
  by (cases "t_pc (threads w ! t)")
     (auto simp: record_loop_step_def set_pc_def Let_def split: option.splits sum.splits)



lemma background_flag: "stop_event (background es w) = stop_event w"
  by (induction es w rule: background.induct) (simp_all add: step_flag)

lemma background_length: "length (threads (background es w)) = length (threads w)"
  by (induction es w rule: background.induct) (simp_all add: step_length)













section \<open>Properties of VideoRecorder\<close>

text \<open>
  C1. The claim asks that the encoder sink is released exactly once whenever the
  capture loop terminates, also when it terminates by a capture or encode failure.
  In the session below the recording starts and the loop ends by an exception in
  its first cycle, raised by the capture in one execution and by the write in the
  other. \<open>stop_recording\<close> then takes its early return: it reports success and
  leaves the recorder as it is, the writer is still held and \<^verbatim>\<open>release()\<close> was
  never called on its sink.
\<close>

theorem C1_writer_not_released_after_loop_failure:
  "VideoRecorder \<lparr>rx = 10, ry = 10, width = 101, height = 51\<rparr> 30 ''out.mp4'' =
     Inr example_recorder \<and>
   start_recording Started example_recorder = (True, example_started) \<and>
   background [(0, capture_raises), (0, capture_raises), (0, capture_raises)] example_started =
     example_failed \<and>
   background [(0, encode_raises), (0, encode_raises), (0, encode_raises), (0, encode_raises)]
     example_started = example_failed \<and>
   t_pc (threads example_failed ! 0) = Finished (Some ExternalError) \<and>
   \<not> is_alive example_failed 0 \<and>
   stop_recording \<lparr>join_raises = False, join_steps = []\<rparr> example_failed =
     (True, example_failed) \<and>
   writer example_failed = Some \<lparr>w_id = 0, w_opened = True\<rparr> \<and>
   released_ids (effects example_failed) = []"
proof -
  have "\<not> is_alive example_failed 0"
    by (simp add: is_alive_def)
  moreover have "stop_recording \<lparr>join_raises = False, join_steps = []\<rparr> example_failed =
     (True, example_failed)"
    by (simp add: stop_recording_def is_alive_def)
  ultimately show ?thesis
    using example_init example_start example_capture_fails example_encode_fails
    by (simp del: background.simps)
qed




text \<open>
  C6. When the encoder sink cannot be opened, because the \<^verbatim>\<open>cv2.VideoWriter\<close>
  constructor raises or because the writer it returns is not opened,
  \<open>start_recording\<close> returns \<open>False\<close>; no thread is created, the thread the
  recorder refers to and the stop event are as before, nothing is captured or
  written, and the recorder holds no writer afterwards: a writer that was created
  is released once, and when the constructor raised the only effect is that of
  \<open>cleanup\<close> on the recorder as it was.
\<close>

theorem C6_start_failure_is_synchronous:
  assumes "env = OpenRaises \<or> env = NotOpened"
  shows "fst (start_recording env w) = False \<and>
         region (snd (start_recording env w)) = region w \<and>
         fps (snd (start_recording env w)) = fps w \<and>
         filename (snd (start_recording env w)) = filename w \<and>
         threads (snd (start_recording env w)) = threads w \<and>
         recording_thread (snd (start_recording env w)) = recording_thread w \<and>
         stop_event (snd (start_recording env w)) = stop_event w \<and>
         writer (snd (start_recording env w)) = None \<and>
         (env = NotOpened \<longrightarrow>
            effects (snd (start_recording env w)) =
              effects w @
                [Opened (length (effects w)) (filename w) (fps w)
                   (width (region w), height (region w)) False,
                 Released (length (effects w))]) \<and>
         (env = OpenRaises \<longrightarrow>
            effects (snd (start_recording env w)) = effects (cleanup w))"
  using assms
  by (auto simp: start_recording_def cleanup_def open_writer_def Let_def split: option.splits)

theorem C6_start_failure_is_synchronous_witness:
  "fst (start_recording NotOpened example_recorder) = False \<and>
   threads (snd (start_recording NotOpened example_recorder)) = [] \<and>
   recording_thread (snd (start_recording NotOpened example_recorder)) = None \<and>
   writer (snd (start_recording NotOpened example_recorder)) = None \<and>
   effects (snd (start_recording NotOpened example_recorder)) =
     [Opened 0 ''out.mp4'' 30 (100, 50) False, Released 0] \<and>
   fst (start_recording OpenRaises example_recorder) = False \<and>
   threads (snd (start_recording OpenRaises example_recorder)) = [] \<and>
   recording_thread (snd (start_recording OpenRaises example_recorder)) = None \<and>
   writer (snd (start_recording OpenRaises example_recorder)) = None \<and>
   effects (snd (start_recording OpenRaises example_recorder)) = []"
  using C6_start_failure_is_synchronous [of NotOpened example_recorder]
    C6_start_failure_is_synchronous [of OpenRaises example_recorder]
  by (simp add: cleanup_def)

text \<open>
  C7. \<open>stop_recording\<close> on a recorder that has no recording thread, as before any
  \<open>start_recording\<close>, or whose recording thread is not alive, returns \<open>True\<close> and
  leaves the recorder unchanged: nothing is released, no exception is raised.
\<close>

theorem C7_stop_without_running_loop:
  assumes "recording_thread w = None \<or> (\<exists>t. recording_thread w = Some t \<and> \<not> is_alive w t)"
  shows "stop_recording env w = (True, w)"
  using assms by (auto simp: stop_recording_def)

theorem C7_stop_without_running_loop_witness:
  "VideoRecorder \<lparr>rx = 10, ry = 10, width = 101, height = 51\<rparr> 30 ''out.mp4'' =
     Inr example_recorder \<and>
   recording_thread example_recorder = None \<and>
   stop_recording \<lparr>join_raises = False, join_steps = []\<rparr> example_recorder =
     (True, example_recorder) \<and>
   recording_thread example_failed = Some 0 \<and> \<not> is_alive example_failed 0 \<and>
   stop_recording \<lparr>join_raises = False, join_steps = [(0, exact_capture)]\<rparr> example_failed =
     (True, example_failed)"
proof -
  have "stop_recording \<lparr>join_raises = False, join_steps = []\<rparr> example_recorder =
     (True, example_recorder)"
    by (rule C7_stop_without_running_loop) simp
  moreover have dead: "\<not> is_alive example_failed 0"
    by (simp add: is_alive_def)
  moreover have "stop_recording \<lparr>join_raises = False, join_steps = [(0, exact_capture)]\<rparr>
      example_failed = (True, example_failed)"
    by (rule C7_stop_without_running_loop) (use dead in simp)
  ultimately show ?thesis using example_init by simp
qed

text \<open>
  C8. In every execution of a recorder: a cycle whose capture returns a buffer of
  any shape, and in which neither the conversion nor the resize raises, leaves for
  the encoder a frame converted from RGB to BGR with \<open>height\<close> rows and \<open>width\<close>
  columns of the recorder's region, both from the point before the screenshot and
  from the loop condition passed with the stop event not set; the write step hands
  exactly the frame of its cycle to the writer; and every frame ever written has
  that channel order and that size.
\<close>

theorem C8_frames_converted_and_sized:
  assumes "VideoRecorder r f name = Inr w0"
  shows "(\<forall>t env s. t < length (threads (run cs w0)) \<and>
            t_pc (threads (run cs w0) ! t) = Capturing \<and>
            capture env = Some s \<and> \<not> cvt_raises env \<and> \<not> resize_raises env \<longrightarrow>
            t_pc (threads (record_loop_step env t (run cs w0)) ! t) =
              Pending \<lparr>shape = (height (region w0), width (region w0)), channels = BGR\<rparr>) \<and>
         (\<forall>t env0 env s. t < length (threads (run cs w0)) \<and>
            t_pc (threads (run cs w0) ! t) = Top \<and> \<not> stop_event (run cs w0) \<and>
            capture env = Some s \<and> \<not> cvt_raises env \<and> \<not> resize_raises env \<longrightarrow>
            t_pc (threads (record_loop_step env t (record_loop_step env0 t (run cs w0))) ! t) =
              Pending \<lparr>shape = (height (region w0), width (region w0)), channels = BGR\<rparr>) \<and>
         (\<forall>t env fr wr. t < length (threads (run cs w0)) \<and>
            t_pc (threads (run cs w0) ! t) = Pending fr \<and> writer (run cs w0) = Some wr \<and>
            \<not> write_raises env \<longrightarrow>
            effects (record_loop_step env t (run cs w0)) =
              effects (run cs w0) @ [Wrote (w_id wr) fr]) \<and>
         (\<forall>n fr. Wrote n fr \<in> set (effects (run cs w0)) \<longrightarrow>
            channels fr = BGR \<and> shape fr = (height (region w0), width (region w0)))"
proof -
  have inv: "session_inv (region w0) (run cs w0)"
    using inv_init [OF assms] by (rule inv_run)
  then have reg: "region (run cs w0) = region w0"
    and effs: "\<And>e. e \<in> set (effects (run cs w0)) \<Longrightarrow> effect_ok (region w0) e"
    by (simp_all add: session_inv_def list_all_iff)
  have grab: "grab_frame env (region w0) =
                Inr \<lparr>shape = (height (region w0), width (region w0)), channels = BGR\<rparr>"
    if "capture env = Some s" "\<not> cvt_raises env" "\<not> resize_raises env" for env s
    using that by (auto simp: grab_frame_def cvtColor_RGB2BGR_def resize_def Let_def)
  have cap: "t_pc (threads (record_loop_step env t w) ! t) =
              Pending \<lparr>shape = (height (region w0), width (region w0)), channels = BGR\<rparr>"
    if "t < length (threads w)" "t_pc (threads w ! t) = Capturing" "region w = region w0"
       "capture env = Some s" "\<not> cvt_raises env" "\<not> resize_raises env" for t env s w
    using that grab [OF that(4,5,6)]
    by (simp add: record_loop_step_def set_pc_def Let_def)
  have a: "t_pc (threads (record_loop_step env t (run cs w0)) ! t) =
              Pending \<lparr>shape = (height (region w0), width (region w0)), channels = BGR\<rparr>"
    if "t < length (threads (run cs w0))" "t_pc (threads (run cs w0) ! t) = Capturing"
       "capture env = Some s" "\<not> cvt_raises env" "\<not> resize_raises env" for t env s
    using cap [OF that(1,2) reg that(3,4,5)] .
  have a': "t_pc (threads (record_loop_step env t (record_loop_step env0 t (run cs w0))) ! t) =
              Pending \<lparr>shape = (height (region w0), width (region w0)), channels = BGR\<rparr>"
    if "t < length (threads (run cs w0))" "t_pc (threads (run cs w0) ! t) = Top"
       "\<not> stop_event (run cs w0)" "capture env = Some s" "\<not> cvt_raises env"
       "\<not> resize_raises env" for t env0 env s
  proof -
    have passed: "record_loop_step env0 t (run cs w0) = set_pc t Capturing (run cs w0)"
      using that(1,2,3) by (simp add: record_loop_step_def)
    have "t < length (threads (set_pc t Capturing (run cs w0)))"
      "t_pc (threads (set_pc t Capturing (run cs w0)) ! t) = Capturing"
      "region (set_pc t Capturing (run cs w0)) = region w0"
      using that(1) reg by (simp_all add: set_pc_def)
    from cap [OF this that(4,5,6)] show ?thesis
      unfolding passed .
  qed
  have b: "effects (record_loop_step env t (run cs w0)) =
              effects (run cs w0) @ [Wrote (w_id wr) fr]"
    if "t < length (threads (run cs w0))" "t_pc (threads (run cs w0) ! t) = Pending fr"
       "writer (run cs w0) = Some wr" "\<not> write_raises env" for t env fr wr
    using that by (simp add: record_loop_step_def)
  have c: "channels fr = BGR \<and> shape fr = (height (region w0), width (region w0))"
    if "Wrote n fr \<in> set (effects (run cs w0))" for n fr
    using effs [OF that] by (simp add: frame_ok_def)
  from a a' b c show ?thesis by blast
qed

theorem C8_frames_converted_and_sized_witness:
  "VideoRecorder \<lparr>rx = 10, ry = 10, width = 101, height = 51\<rparr> 30 ''out.mp4'' =
     Inr example_recorder \<and>
   t_pc (threads (record_loop_step oversized_capture 0
      (run [StartRecording Started, Step 0 exact_capture, Step 0 exact_capture]
         example_recorder)) ! 0) =
     Pending \<lparr>shape = (50, 100), channels = BGR\<rparr> \<and>
   t_pc (threads (record_loop_step oversized_capture 0 (record_loop_step exact_capture 0
      (run [StartRecording Started, Step 0 exact_capture] example_recorder))) ! 0) =
     Pending \<lparr>shape = (50, 100), channels = BGR\<rparr> \<and>
   effects (record_loop_step exact_capture 0
      (run [StartRecording Started, Step 0 exact_capture, Step 0 exact_capture,
            Step 0 oversized_capture] example_recorder)) =
     [Opened 0 ''out.mp4'' 30 (100, 50) True, Captured (10, 10, 100, 50),
      Wrote 0 \<lparr>shape = (50, 100), channels = BGR\<rparr>] \<and>
   Wrote 0 \<lparr>shape = (50, 100), channels = BGR\<rparr> \<in>
     set (effects (run [StartRecording Started, Step 0 exact_capture, Step 0 exact_capture,
       Step 0 oversized_capture, Step 0 exact_capture] example_recorder))"
proof -
  let ?top = "run [StartRecording Started, Step 0 exact_capture] example_recorder"
  let ?capturing = "run [StartRecording Started, Step 0 exact_capture, Step 0 exact_capture]
                      example_recorder"
  let ?pending = "run [StartRecording Started, Step 0 exact_capture, Step 0 exact_capture,
                       Step 0 oversized_capture] example_recorder"
  have top: "(0::nat) < length (threads ?top) \<and> t_pc (threads ?top ! 0) = Top \<and>
             \<not> stop_event ?top \<and> capture oversized_capture = Some (51, 101) \<and>
             \<not> cvt_raises oversized_capture \<and> \<not> resize_raises oversized_capture"
    unfolding example_run_prefix by simp
  have capturing: "(0::nat) < length (threads ?capturing) \<and>
             t_pc (threads ?capturing ! 0) = Capturing \<and>
             capture oversized_capture = Some (51, 101) \<and>
             \<not> cvt_raises oversized_capture \<and> \<not> resize_raises oversized_capture"
    unfolding example_run_capturing by simp
  have pending: "(0::nat) < length (threads ?pending) \<and>
             t_pc (threads ?pending ! 0) = Pending \<lparr>shape = (50, 100), channels = BGR\<rparr> \<and>
             writer ?pending = Some \<lparr>w_id = 0, w_opened = True\<rparr> \<and>
             \<not> write_raises exact_capture"
    unfolding example_run_pending by simp
  have wrote: "Wrote 0 \<lparr>shape = (50, 100), channels = BGR\<rparr> \<in>
     set (effects (run [StartRecording Started, Step 0 exact_capture, Step 0 exact_capture,
       Step 0 oversized_capture, Step 0 exact_capture] example_recorder))"
    unfolding example_run by simp
  from C8_frames_converted_and_sized [OF example_init,
      of "[StartRecording Started, Step 0 exact_capture, Step 0 exact_capture]"] capturing
  have a: "t_pc (threads (record_loop_step oversized_capture 0 ?capturing) ! 0) =
     Pending \<lparr>shape = (50, 100), channels = BGR\<rparr>"
    by (simp del: run.simps)
  from C8_frames_converted_and_sized [OF example_init,
      of "[StartRecording Started, Step 0 exact_capture]"] top
  have a': "t_pc (threads (record_loop_step oversized_capture 0
      (record_loop_step exact_capture 0 ?top)) ! 0) =
     Pending \<lparr>shape = (50, 100), channels = BGR\<rparr>"
    by (simp del: run.simps)
  from C8_frames_converted_and_sized [OF example_init,
      of "[StartRecording Started, Step 0 exact_capture, Step 0 exact_capture,
           Step 0 oversized_capture]"] pending
  have "effects (record_loop_step exact_capture 0 ?pending) =
     effects ?pending @ [Wrote 0 \<lparr>shape = (50, 100), channels = BGR\<rparr>]"
    by (simp del: run.simps)
  then have b: "effects (record_loop_step exact_capture 0 ?pending) =
     [Opened 0 ''out.mp4'' 30 (100, 50) True, Captured (10, 10, 100, 50),
      Wrote 0 \<lparr>shape = (50, 100), channels = BGR\<rparr>]"
    unfolding example_run_pending by simp
  from example_init a a' b wrote show ?thesis
    by (intro conjI)
qed

text \<open>
  C9. The region a recorder stores is the even-dimension normalisation of the
  Region passed to its constructor, and its width and height are even. In every
  execution, each encoder sink is opened with that region's width and height as the
  container size, and each frame is captured from the rectangle of that region.
\<close>

theorem C9_even_region_is_used:
  assumes "VideoRecorder r f name = Inr w0"
  shows "make_even_dimensions r = Inr (region (run cs w0)) \<and>
         even (width (region (run cs w0))) \<and> even (height (region (run cs w0))) \<and>
         (\<forall>n path fp sz ok. Opened n path fp sz ok \<in> set (effects (run cs w0)) \<longrightarrow>
            sz = (width (region (run cs w0)), height (region (run cs w0)))) \<and>
         (\<forall>rect. Captured rect \<in> set (effects (run cs w0)) \<longrightarrow>
            rect = as_tuple (region (run cs w0)))"
proof -
  from assms have me: "make_even_dimensions r = Inr (region w0)"
    by (auto simp: VideoRecorder_def split: sum.splits)
  have inv: "session_inv (region w0) (run cs w0)"
    using inv_init [OF assms] by (rule inv_run)
  then have reg: "region (run cs w0) = region w0"
    and effs: "\<And>e. e \<in> set (effects (run cs w0)) \<Longrightarrow> effect_ok (region w0) e"
    by (simp_all add: session_inv_def list_all_iff)
  have "\<And>n path fp sz ok. Opened n path fp sz ok \<in> set (effects (run cs w0)) \<Longrightarrow>
          sz = (width (region w0), height (region w0))"
    using effs by fastforce
  moreover have "\<And>rect. Captured rect \<in> set (effects (run cs w0)) \<Longrightarrow>
          rect = as_tuple (region w0)"
    using effs by fastforce
  ultimately show ?thesis
    using me make_even_dimensions_Inr(1,2) [OF me] by (simp add: reg)
qed

theorem C9_even_region_is_used_witness:
  "VideoRecorder \<lparr>rx = 10, ry = 10, width = 101, height = 51\<rparr> 30 ''out.mp4'' =
     Inr example_recorder \<and>
   region (run [StartRecording Started, Step 0 exact_capture, Step 0 exact_capture,
        Step 0 oversized_capture, Step 0 exact_capture] example_recorder) =
     \<lparr>rx = 10, ry = 10, width = 100, height = 50\<rparr> \<and>
   make_even_dimensions \<lparr>rx = 10, ry = 10, width = 101, height = 51\<rparr> =
     Inr \<lparr>rx = 10, ry = 10, width = 100, height = 50\<rparr> \<and>
   set (effects (run [StartRecording Started, Step 0 exact_capture, Step 0 exact_capture,
        Step 0 oversized_capture, Step 0 exact_capture] example_recorder)) =
     {Opened 0 ''out.mp4'' 30 (100, 50) True, Captured (10, 10, 100, 50),
      Wrote 0 \<lparr>shape = (50, 100), channels = BGR\<rparr>}"
  using C9_even_region_is_used [OF example_init,
      of "[StartRecording Started, Step 0 exact_capture, Step 0 exact_capture,
        Step 0 oversized_capture, Step 0 exact_capture]"] example_init
  unfolding example_run by simp

end
